theory Spec2Isabelle
  imports Main "HOL-Library.Word"
begin

section \<open>Time values of the Go runtime\<close>

text \<open>
  The limiter of package \<open>rate\<close> computes with \<open>time.Duration\<close> and \<open>time.Time\<close>.
  A \<open>Duration\<close> is a signed 64-bit count of nanoseconds: it is a \<open>64 word\<close>, read
  with \<open>sint\<close>, so that the negation \<open>-l.quantum\<close> wraps as it does in Go.
  A \<open>Time\<close> is an instant; its range (a 64-bit count of seconds) is far wider than
  any sum of a clock reading and a few durations, so an instant is an \<open>int\<close>: the
  number of nanoseconds since the zero \<open>Time\<close>, which is what a missing map key reads as.
  The methods of \<open>Time\<close> are those of the library's documentation: \<open>Add\<close> is exact,
  \<open>After\<close> compares instants, and \<open>Sub\<close> returns the difference, or the largest
  (smallest) \<open>Duration\<close> when the difference does not fit. The instant of a
  \<open>Time\<close> is the reading these methods compare. A \<open>Time\<close> is a struct with more in
  it (a wall reading beside a monotonic one, a location), and \<open>!=\<close> on two \<open>Time\<close>
  values, as in the sweep loop, compares all fields: two values at one instant are
  equal only if the rest agrees too. The sweep below is told, for each key, whether
  it does.
\<close>

type_synonym duration = "64 word"
type_synonym time = int

definition Second :: duration where
  "Second = 1000000000"

definition minDuration :: duration where
  "minDuration = word_of_int (- (2 ^ 63))"

definition maxDuration :: duration where
  "maxDuration = word_of_int (2 ^ 63 - 1)"

definition zeroTime :: time where
  "zeroTime = 0"

definition Add :: "time \<Rightarrow> duration \<Rightarrow> time" where
  "Add t d = t + sint d"

definition After :: "time \<Rightarrow> time \<Rightarrow> bool" where
  "After t u \<longleftrightarrow> u < t"

definition Sub :: "time \<Rightarrow> time \<Rightarrow> duration" where
  "Sub t u =
     (let d = t - u
      in if d < - (2 ^ 63) then minDuration
         else if 2 ^ 63 - 1 < d then maxDuration
         else word_of_int d)"

section \<open>The limiter\<close>

text \<open>
  \<open>tickInterval\<close> and \<open>preallocEntries\<close> do not influence any result; \<open>maxSweep\<close>
  does. The channels of the \<open>limiter\<close> struct carry the asks and the close signal:
  they are the events of the run loop below, and the only field left is the quantum.
\<close>

definition maxSweep :: nat where
  "maxSweep = 10"

record limiter =
  quantum :: duration

definition New :: "duration \<Rightarrow> limiter" where
  "New q = \<lparr>quantum = q\<rparr>"

text \<open>The map \<open>m\<close> of \<open>run\<close>; indexing it with a missing key gives the zero \<open>Time\<close>.\<close>

type_synonym ledger = "string \<rightharpoonup> time"

definition index :: "ledger \<Rightarrow> string \<Rightarrow> time" where
  "index m k = (case m k of None \<Rightarrow> zeroTime | Some v \<Rightarrow> v)"

text \<open>\<open>floor\<close>: the mark time clamped to \<open>[now - window, +inf)\<close>.\<close>

definition floor :: "limiter \<Rightarrow> time \<Rightarrow> time \<Rightarrow> time" where
  "floor l mark now =
     (let t = Add now (- quantum l)
      in if \<not> After mark t then t else mark)"

text \<open>
  One \<open>Schedule\<close> round trip: the ask is sent, the run loop reads the clock (\<open>now\<close>),
  replies with \<open>delta\<close> and stores \<open>then\<close> when \<open>delta <= 0\<close>. The result is the
  reply and the ledger afterwards.
\<close>

definition Schedule :: "limiter \<Rightarrow> ledger \<Rightarrow> time \<Rightarrow> string \<Rightarrow> duration \<Rightarrow> duration \<times> ledger" where
  "Schedule l m now task slice' =
     (let then' = Add (floor l (index m task) now) slice';
          delta = Sub then' now
      in (delta, if sint delta \<le> 0 then m(task \<mapsto> then') else m))"

text \<open>
  \<open>Allow\<close> and \<open>AllowSlice\<close> take any \<open>Limiter\<close>: here its \<open>Schedule\<close> method,
  a function from the limiter's state, the task and the slice to the delay and the
  state afterwards.
\<close>

definition Allow :: "('st \<Rightarrow> string \<Rightarrow> duration \<Rightarrow> duration \<times> 'st) \<Rightarrow> 'st \<Rightarrow> string \<Rightarrow> bool \<times> 'st" where
  "Allow sched st task = (let (delay, st') = sched st task Second in (sint delay \<le> 0, st'))"

definition AllowSlice :: "('st \<Rightarrow> string \<Rightarrow> duration \<Rightarrow> duration \<times> 'st) \<Rightarrow> 'st \<Rightarrow> string \<Rightarrow> duration \<Rightarrow> bool \<times> 'st" where
  "AllowSlice sched st task slice' = (let (delay, st') = sched st task slice' in (sint delay \<le> 0, st'))"

text \<open>
  The test \<open>l.floor(v, t) != v\<close> of the sweep loop compares two \<open>Time\<close> structs.
  \<open>floor\<close> returns \<open>mark\<close> itself when \<open>mark\<close> is after the clamp
  \<open>now.Add(-l.quantum)\<close>: then both sides are one struct. Otherwise it returns the
  clamp, a value built in this call: it differs from \<open>v\<close> when the instants differ,
  and at one instant when the other fields do (the wall reading of a value with a
  monotonic reading, the location). \<open>same\<close> says whether the other fields of \<open>v\<close>
  are those of the clamp.
\<close>

definition floor_changes :: "limiter \<Rightarrow> bool \<Rightarrow> time \<Rightarrow> time \<Rightarrow> bool" where
  "floor_changes l same v now \<longleftrightarrow>
     floor l v now \<noteq> v \<or> (\<not> After v (Add now (- quantum l)) \<and> \<not> same)"

text \<open>
  The sweep of one tick. \<open>range m\<close> visits the keys in an order the runtime chooses:
  the list \<open>ks\<close>. \<open>i\<close> is the loop counter, \<open>t\<close> the clock reading of the tick, and
  \<open>same\<close> the set of the keys whose stored \<open>Time\<close> has the other fields of the clamp
  of this tick. A key that is no longer in the map is not visited.
\<close>

fun sweep :: "limiter \<Rightarrow> time \<Rightarrow> string set \<Rightarrow> nat \<Rightarrow> string list \<Rightarrow> ledger \<Rightarrow> ledger" where
  "sweep l t same i [] m = m"
| "sweep l t same i (k # ks) m =
     (case m k of
        None \<Rightarrow> sweep l t same i ks m
      | Some v \<Rightarrow>
          (let m' = (if floor_changes l (k \<in> same) v t then m(k := None) else m)
           in if i \<ge> maxSweep then m' else sweep l t same (i + 1) ks m'))"

text \<open>
  The run loop, one event per iteration: an ask with the clock reading at its
  processing, or a tick with its clock reading, whether \<open>done\<close> is closed, the
  order in which \<open>range\<close> visits the map, and the keys whose stored \<open>Time\<close> has the
  other fields of the clamp of this tick. The result is the replies sent, in order,
  and the ledger when the events are used up or the loop has returned.
\<close>

datatype event = Ask time string duration | Tick time bool "string list" "string set"

fun run :: "limiter \<Rightarrow> ledger \<Rightarrow> event list \<Rightarrow> duration list \<times> ledger" where
  "run l m [] = ([], m)"
| "run l m (Ask now task slice' # es) =
     (let (delta, m') = Schedule l m now task slice';
          (ds, m'') = run l m' es
      in (delta # ds, m''))"
| "run l m (Tick t closed ks same # es) =
     (if closed then ([], m) else run l (sweep l t same 0 ks m) es)"

text \<open>
  \<open>time.Now()\<close> reads the wall clock. The zero \<open>Time\<close> is 1 January of year 1,
  and \<open>2 ^ 63\<close> nanoseconds are about 292 years: a clock reading is later than that.
\<close>

definition is_Now :: "time \<Rightarrow> bool" where
  "is_Now now \<longleftrightarrow> 2 ^ 63 \<le> now"

section \<open>The scheduling rule in the words of the specification\<close>

text \<open>
  The specification computes with instants and durations as numbers:
  \<open>floor = max(prior, now - quantum)\<close>, the clamp floor when the key has no entry,
  \<open>projected = floor + slice\<close>, \<open>delay = projected - now\<close>, and the entry becomes
  \<open>projected\<close> exactly when \<open>delay \<le> 0\<close>.
\<close>

definition spec_floor :: "int \<Rightarrow> time option \<Rightarrow> time \<Rightarrow> time" where
  "spec_floor Q prior now = (case prior of None \<Rightarrow> now - Q | Some p \<Rightarrow> max p (now - Q))"

definition spec_Schedule :: "int \<Rightarrow> ledger \<Rightarrow> time \<Rightarrow> string \<Rightarrow> int \<Rightarrow> int \<times> ledger" where
  "spec_Schedule Q m now key s =
     (let projected = spec_floor Q (m key) now + s;
          delay = projected - now
      in (delay, if delay \<le> 0 then m(key \<mapsto> projected) else m))"

section \<open>Durations and instants\<close>

lemma sint_word_of_int_64:
  "- (2 ^ 63) \<le> d \<Longrightarrow> d \<le> 2 ^ 63 - 1 \<Longrightarrow> sint (word_of_int d :: 64 word) = d"
  by (simp add: int_word_sint)

lemma sint_lower: "- (2 ^ 63) \<le> sint (w :: 64 word)"
  using sint_greater_eq [of w] by simp

lemma sint_upper: "sint (w :: 64 word) \<le> 2 ^ 63 - 1"
  using sint_less [of w] by simp

lemma sint_Sub: "sint (Sub t u) = max (- (2 ^ 63)) (min (2 ^ 63 - 1) (t - u))"
proof -
  define d where "d = t - u"
  have "sint (if d < - (2 ^ 63) then minDuration
         else if 2 ^ 63 - 1 < d then maxDuration
         else word_of_int d) = max (- (2 ^ 63)) (min (2 ^ 63 - 1) d)"
    by (simp add: minDuration_def maxDuration_def sint_word_of_int_64 max_def min_def)
  then show ?thesis
    unfolding Sub_def Let_def d_def .
qed

lemma Sub_granted: "sint (Sub t u) \<le> 0 \<longleftrightarrow> t \<le> u"
  by (simp add: sint_Sub max_def min_def)

lemma Sub_exact:
  "- (2 ^ 63) \<le> t - u \<Longrightarrow> t - u \<le> 2 ^ 63 - 1 \<Longrightarrow> sint (Sub t u) = t - u"
  by (simp add: sint_Sub max_def min_def)

text \<open>Negation wraps at the smallest duration only.\<close>

lemma sint_neg:
  "sint (- q :: 64 word) = (if sint q = - (2 ^ 63) then - (2 ^ 63) else - sint q)"
proof (cases "sint q = - (2 ^ 63)")
  case True
  then have "sint (- q) = signed_take_bit 63 (2 ^ 63 :: int)"
    by (simp add: sint_word_minus)
  also have "\<dots> = - (2 ^ 63)"
    by (simp add: signed_take_bit_eq_take_bit_shift)
  finally show ?thesis using True by simp
next
  case False
  then have "- (2 ^ 63) \<le> - sint q" "- sint q < 2 ^ 63"
    using sint_lower [of q] sint_upper [of q] by simp_all
  then have "signed_take_bit 63 (- sint q) = - sint q"
    by (simp add: signed_take_bit_int_eq_self)
  then show ?thesis using False by (simp add: sint_word_minus)
qed

lemma floor_eq: "floor l mark now = max mark (now + sint (- quantum l))"
  by (simp add: floor_def Let_def Add_def After_def max_def)

text \<open>The reply and the ledger of one round trip, as facts about instants.\<close>

lemma Schedule_granted:
  "sint (fst (Schedule l m now k s)) \<le> 0 \<longleftrightarrow> floor l (index m k) now + sint s \<le> now"
  by (simp add: Schedule_def Let_def Sub_granted Add_def)

lemma Schedule_ledger:
  "snd (Schedule l m now k s) =
     (if floor l (index m k) now + sint s \<le> now
      then m(k \<mapsto> floor l (index m k) now + sint s) else m)"
  by (simp add: Schedule_def Let_def Sub_granted Add_def)

lemma Schedule_delay:
  "sint (fst (Schedule l m now k s)) =
     max (- (2 ^ 63)) (min (2 ^ 63 - 1) (floor l (index m k) now + sint s - now))"
  by (simp add: Schedule_def Let_def sint_Sub Add_def)

section \<open>Denial\<close>

text \<open>
  C3. A denied \<open>Schedule\<close> (its reply is positive) leaves the ledger as it was: the
  entry of the task, present or absent, and the entries of all other keys.
\<close>

theorem denied_ledger_unchanged:
  "0 < sint (fst (Schedule l m now k s)) \<Longrightarrow> snd (Schedule l m now k s) = m"
  by (simp add: Schedule_def Let_def)

theorem denied_ledger_unchanged_witness:
  "0 < sint (fst (Schedule (New Second) Map.empty (2 ^ 64) ''a'' (2 * Second)))
   \<and> snd (Schedule (New Second) Map.empty (2 ^ 64) ''a'' (2 * Second)) = Map.empty"
proof -
  have h: "0 < sint (fst (Schedule (New Second) Map.empty (2 ^ 64) ''a'' (2 * Second)))"
    by (simp add: Schedule_delay floor_eq index_def zeroTime_def New_def Second_def)
  show ?thesis
    using h denied_ledger_unchanged [OF h] by simp
qed

section \<open>Granted requests\<close>

text \<open>
  C10. When a \<open>Schedule\<close> is granted at the clock reading \<open>now\<close>, the value stored
  for the task is not after \<open>now\<close>: the entry of a key is never later than the time
  at which it was written.
\<close>

theorem granted_entry_not_future:
  "sint (fst (Schedule l m now k s)) \<le> 0 \<Longrightarrow>
     \<exists>v. snd (Schedule l m now k s) k = Some v \<and> v \<le> now"
  by (simp add: Schedule_granted Schedule_ledger)

theorem granted_entry_not_future_witness:
  "sint (fst (Schedule (New Second) Map.empty (2 ^ 64) ''a'' Second)) \<le> 0
   \<and> (\<exists>v. snd (Schedule (New Second) Map.empty (2 ^ 64) ''a'' Second) ''a'' = Some v \<and> v \<le> 2 ^ 64)"
proof -
  have h: "sint (fst (Schedule (New Second) Map.empty (2 ^ 64) ''a'' Second)) \<le> 0"
    by (simp add: Schedule_delay floor_eq index_def zeroTime_def New_def Second_def)
  show ?thesis
    using h granted_entry_not_future [OF h] by simp
qed

lemma floor_ge_mark: "mark \<le> floor l mark now"
  by (simp add: floor_eq)

text \<open>
  C4, as stated, for any slice: whenever a \<open>Schedule\<close> is granted and the task had an
  entry \<open>v\<close>, the new entry is at least \<open>v\<close>. A negative slice is granted and moves
  the entry back: with a quantum of 3s and the entry at \<open>now\<close>, a slice of -1s is
  granted and stores \<open>now - 1s\<close>.
\<close>

theorem granted_entry_monotone_counterexample:
  "sint (fst (Schedule (New (3 * Second)) [''bar'' \<mapsto> 2 ^ 64] (2 ^ 64) ''bar'' (- Second))) \<le> 0
   \<and> snd (Schedule (New (3 * Second)) [''bar'' \<mapsto> 2 ^ 64] (2 ^ 64) ''bar'' (- Second)) ''bar''
       = Some (2 ^ 64 - 1000000000)
   \<and> \<not> (2 ^ 64 \<le> (2 ^ 64 - 1000000000 :: int))"
  by (simp add: Schedule_granted Schedule_ledger floor_eq index_def New_def Second_def)

text \<open>
  C4, amended: whenever a \<open>Schedule\<close> with a slice that is not negative is granted
  and the task had an entry \<open>v\<close>, the new entry is at least \<open>v\<close>.
\<close>

theorem granted_entry_monotone:
  assumes "0 \<le> sint s" and "m k = Some v" and "sint (fst (Schedule l m now k s)) \<le> 0"
  shows "\<exists>v'. snd (Schedule l m now k s) k = Some v' \<and> v \<le> v'"
proof -
  have "v \<le> floor l (index m k) now"
    using assms(2) floor_ge_mark [of v l now] by (simp add: index_def)
  with assms show ?thesis
    by (simp add: Schedule_granted Schedule_ledger)
qed

theorem granted_entry_monotone_witness:
  "0 \<le> sint Second \<and> [''bar'' \<mapsto> 2 ^ 64 - 1000000000] ''bar'' = Some (2 ^ 64 - 1000000000 :: int)
   \<and> sint (fst (Schedule (New (3 * Second)) [''bar'' \<mapsto> 2 ^ 64 - 1000000000] (2 ^ 64) ''bar'' Second)) \<le> 0
   \<and> (\<exists>v'. snd (Schedule (New (3 * Second)) [''bar'' \<mapsto> 2 ^ 64 - 1000000000] (2 ^ 64) ''bar'' Second) ''bar'' = Some v'
         \<and> 2 ^ 64 - 1000000000 \<le> v')"
proof -
  have a: "0 \<le> sint Second" by (simp add: Second_def)
  have b: "[''bar'' \<mapsto> 2 ^ 64 - 1000000000] ''bar'' = Some (2 ^ 64 - 1000000000 :: int)" by simp
  have c: "sint (fst (Schedule (New (3 * Second)) [''bar'' \<mapsto> 2 ^ 64 - 1000000000] (2 ^ 64) ''bar'' Second)) \<le> 0"
    by (simp add: Schedule_granted floor_eq index_def New_def Second_def)
  show ?thesis
    using a b c granted_entry_monotone [OF a b c] by blast
qed

section \<open>The code against the scheduling rule of the specification\<close>

lemma sint_minDuration: "sint minDuration = - (2 ^ 63)"
  by (simp add: minDuration_def)

lemma not_minDuration: "q \<noteq> minDuration \<Longrightarrow> sint q \<noteq> - (2 ^ 63)"
proof
  assume "q \<noteq> minDuration" and "sint q = - (2 ^ 63)"
  then have "sint q = sint minDuration" by (simp add: sint_minDuration)
  then have "q = minDuration" by (rule signed_word_eqI)
  with \<open>q \<noteq> minDuration\<close> show False by simp
qed

lemma floor_spec_floor:
  assumes "is_Now now" and "quantum l \<noteq> minDuration"
  shows "floor l (index m k) now = spec_floor (sint (quantum l)) (m k) now"
proof -
  have n: "sint (- quantum l) = - sint (quantum l)"
    using not_minDuration [OF assms(2)] by (simp add: sint_neg)
  have "0 \<le> now - sint (quantum l)"
    using assms(1) sint_upper [of "quantum l"] by (simp add: is_Now_def)
  then show ?thesis
    by (simp add: floor_eq n spec_floor_def index_def zeroTime_def split: option.split)
qed

text \<open>
  For a quantum and a slice that are not negative and an entry that is not after
  \<open>now\<close>, the difference fits and the reply is the one of the rule.
\<close>

lemma Schedule_exact:
  assumes "is_Now now" and "0 \<le> sint (quantum l)" and "0 \<le> sint s" and "index m k \<le> now"
  shows "sint (fst (Schedule l m now k s)) = fst (spec_Schedule (sint (quantum l)) m now k (sint s))"
proof -
  have n: "sint (- quantum l) = - sint (quantum l)"
    using assms(2) by (simp add: sint_neg)
  let ?f = "floor l (index m k) now"
  have f: "?f = spec_floor (sint (quantum l)) (m k) now"
    using assms(1) sint_upper [of "quantum l"]
    by (simp add: floor_eq n spec_floor_def index_def zeroTime_def is_Now_def split: option.split)
  have "?f \<le> now" and "now - sint (quantum l) \<le> ?f"
    using assms(2,4) by (simp_all add: floor_eq n)
  then have "- (2 ^ 63) \<le> ?f + sint s - now" and "?f + sint s - now \<le> 2 ^ 63 - 1"
    using assms(3) sint_upper [of s] sint_upper [of "quantum l"] by simp_all
  then have "sint (fst (Schedule l m now k s)) = ?f + sint s - now"
    by (simp add: Schedule_delay max_def min_def)
  then show ?thesis
    by (simp add: f spec_Schedule_def Let_def)
qed

text \<open>
  C1, as stated, for every quantum, slice and ledger: the reply is
  \<open>floor + s - now\<close>. \<open>Sub\<close> cannot return a difference that does not fit a
  \<open>Duration\<close>: with a quantum of 1s, an empty ledger and the smallest slice, the reply
  is the smallest \<open>Duration\<close>, and \<open>floor + s - now\<close> is one second less.
\<close>

theorem Schedule_refines_spec_counterexample:
  "sint (fst (Schedule (New Second) Map.empty (2 ^ 64) ''a'' minDuration))
     \<noteq> fst (spec_Schedule (sint (quantum (New Second))) Map.empty (2 ^ 64) ''a'' (sint minDuration))"
  by (simp add: Schedule_delay floor_eq index_def zeroTime_def New_def Second_def
      sint_minDuration spec_Schedule_def spec_floor_def)

text \<open>
  C1, amended: for every limiter whose quantum \<open>Q\<close> is not the smallest \<open>Duration\<close>
  (the only one whose negation wraps), every clock reading, key, slice \<open>s\<close> and
  ledger, \<open>Schedule\<close> computes \<open>floor = max(prior, now - Q)\<close>, the clamp floor when
  the key has no entry, replies with \<open>floor + s - now\<close> brought into the range of
  \<open>Duration\<close> (so with \<open>floor + s - now\<close> itself whenever that fits), and updates the
  entry of the key to \<open>floor + s\<close> exactly when \<open>floor + s - now \<le> 0\<close>, which is
  exactly when the reply is \<open>\<le> 0\<close>.
\<close>

theorem Schedule_refines_spec:
  assumes "is_Now now" and "quantum l \<noteq> minDuration"
  shows "sint (fst (Schedule l m now k s))
           = max (- (2 ^ 63)) (min (2 ^ 63 - 1) (fst (spec_Schedule (sint (quantum l)) m now k (sint s))))
       \<and> snd (Schedule l m now k s) = snd (spec_Schedule (sint (quantum l)) m now k (sint s))"
  by (simp add: Schedule_delay Schedule_ledger floor_spec_floor [OF assms] spec_Schedule_def Let_def)

theorem Schedule_refines_spec_witness:
  "is_Now (2 ^ 64) \<and> quantum (New (3 * Second)) \<noteq> minDuration
   \<and> sint (fst (Schedule (New (3 * Second)) Map.empty (2 ^ 64) ''bar'' Second)) = - 2000000000
   \<and> snd (Schedule (New (3 * Second)) Map.empty (2 ^ 64) ''bar'' Second)
       = [''bar'' \<mapsto> 2 ^ 64 - 2000000000]"
proof -
  have a: "is_Now (2 ^ 64)" by (simp add: is_Now_def)
  have b: "quantum (New (3 * Second)) \<noteq> minDuration"
    by (simp add: New_def Second_def minDuration_def)
  show ?thesis
    using a b Schedule_refines_spec [OF a b, of Map.empty "''bar''" Second]
    by (simp add: spec_Schedule_def spec_floor_def New_def Second_def)
qed

section \<open>Hammering one key\<close>

lemma fst_run_Ask:
  "fst (run l m (Ask now k s # es)) = fst (Schedule l m now k s) # fst (run l (snd (Schedule l m now k s)) es)"
  by (simp add: split_beta)

lemma snd_run_Ask:
  "snd (run l m (Ask now k s # es)) = snd (run l (snd (Schedule l m now k s)) es)"
  by (simp add: split_beta)

lemma mult_le_iff_le_div:
  fixes U Q :: int
  assumes "0 < U"
  shows "n * U \<le> Q \<longleftrightarrow> n \<le> Q div U"
proof
  assume "n * U \<le> Q"
  then have "(n * U) div U \<le> Q div U" using assms by (rule zdiv_mono1)
  then show "n \<le> Q div U" using assms by simp
next
  assume "n \<le> Q div U"
  then have "n * U \<le> (Q div U) * U" using assms by (simp add: mult_right_mono)
  also have "\<dots> \<le> Q"
  proof -
    have "0 \<le> Q mod U" using assms by simp
    moreover have "Q = (Q div U) * U + Q mod U" by simp
    ultimately show ?thesis by linarith
  qed
  finally show "n * U \<le> Q" .
qed

lemma hammer:
  assumes U: "0 < sint u" and nq: "sint (- quantum l) = - sint (quantum l)"
  shows "floor l (index m k) now = now - sint (quantum l) + int j * sint u \<Longrightarrow>
     int (j + r) = sint (quantum l) div sint u \<Longrightarrow>
     map (\<lambda>d. sint d \<le> 0) (fst (run l m (replicate (Suc r) (Ask now k u))))
       = replicate r True @ [False]"
proof (induction r arbitrary: j m)
  case 0
  then have "\<not> (int j + 1) * sint u \<le> sint (quantum l)"
    using mult_le_iff_le_div [OF U, of "int j + 1" "sint (quantum l)"] by simp
  then have "\<not> floor l (index m k) now + sint u \<le> now"
    using 0(1) by (simp add: algebra_simps)
  then show ?case
    by (simp add: split_beta Schedule_granted)
next
  case (Suc r)
  let ?P = "\<lambda>d :: duration. sint d \<le> 0"
  let ?then = "now - sint (quantum l) + (int j + 1) * sint u"
  let ?m' = "snd (Schedule l m now k u)"
  have "(int j + 1) * sint u \<le> sint (quantum l)"
    using mult_le_iff_le_div [OF U, of "int j + 1" "sint (quantum l)"] Suc.prems(2) by simp
  then have g: "floor l (index m k) now + sint u \<le> now"
    using Suc.prems(1) by (simp add: algebra_simps)
  have t: "floor l (index m k) now + sint u = ?then"
    using Suc.prems(1) by (simp add: algebra_simps)
  have m': "?m' = m(k \<mapsto> ?then)"
    using g t by (simp add: Schedule_ledger)
  have "0 \<le> (int j + 1) * sint u" using U by simp
  then have "floor l (index (m(k \<mapsto> ?then)) k) now = now - sint (quantum l) + int (Suc j) * sint u"
    by (simp add: floor_eq index_def nq algebra_simps)
  then have f: "floor l (index ?m' k) now = now - sint (quantum l) + int (Suc j) * sint u"
    by (simp only: m')
  have n: "int (Suc j + r) = sint (quantum l) div sint u"
    using Suc.prems(2) by simp
  have tl: "map ?P (fst (run l ?m' (replicate (Suc r) (Ask now k u)))) = replicate r True @ [False]"
    by (rule Suc.IH [OF f n])
  have hd: "?P (fst (Schedule l m now k u)) = True"
    using g by (simp add: Schedule_granted)
  have "map ?P (fst (run l m (replicate (Suc (Suc r)) (Ask now k u))))
      = ?P (fst (Schedule l m now k u)) # map ?P (fst (run l ?m' (replicate (Suc r) (Ask now k u))))"
    by (subst replicate_Suc, subst fst_run_Ask, simp only: list.map)
  also have "\<dots> = True # (replicate r True @ [False])"
    by (simp only: tl hd)
  also have "\<dots> = replicate (Suc r) True @ [False]"
    by simp
  finally show ?case .
qed

text \<open>
  C2. For a quantum \<open>Q\<close> and a slice \<open>u\<close> with \<open>0 < u \<le> Q\<close>, starting from the empty
  ledger with the clock standing still, the first \<open>Q div u\<close> calls of \<open>Schedule\<close>
  on one key are granted and the next one is denied. With \<open>Q\<close> = 30s and \<open>u\<close> = 1s
  these are 30 grants and a denial.
\<close>

theorem grants_before_denial:
  assumes "is_Now now" and "0 < sint u" and "sint u \<le> sint (quantum l)"
  shows "map (\<lambda>d. sint d \<le> 0)
           (fst (run l Map.empty (replicate (Suc (nat (sint (quantum l) div sint u))) (Ask now k u))))
         = replicate (nat (sint (quantum l) div sint u)) True @ [False]"
proof -
  have q: "0 < sint (quantum l)" using assms by simp
  then have nq: "sint (- quantum l) = - sint (quantum l)"
    by (simp add: sint_neg)
  have "0 \<le> now - sint (quantum l)"
    using assms(1) sint_upper [of "quantum l"] by (simp add: is_Now_def)
  then have f: "floor l (index Map.empty k) now = now - sint (quantum l) + int 0 * sint u"
    by (simp add: floor_eq nq index_def zeroTime_def)
  have "0 \<le> sint (quantum l) div sint u"
    using q assms(2) by (simp add: pos_imp_zdiv_nonneg_iff)
  then have n: "int (0 + nat (sint (quantum l) div sint u)) = sint (quantum l) div sint u"
    by simp
  show ?thesis
    by (rule hammer [OF assms(2) nq f n])
qed

theorem grants_before_denial_witness:
  "is_Now (2 ^ 64) \<and> 0 < sint Second \<and> sint Second \<le> sint (quantum (New (30 * Second)))
   \<and> map (\<lambda>d. sint d \<le> 0)
           (fst (run (New (30 * Second)) Map.empty (replicate 31 (Ask (2 ^ 64) ''bar'' Second))))
         = replicate 30 True @ [False]"
proof -
  have a: "is_Now (2 ^ 64)" by (simp add: is_Now_def)
  have b: "0 < sint Second" by (simp add: Second_def)
  have c: "sint Second \<le> sint (quantum (New (30 * Second)))" by (simp add: New_def Second_def)
  have d: "nat (sint (quantum (New (30 * Second))) div sint Second) = 30"
    by (simp add: New_def Second_def)
  show ?thesis
    using a b c grants_before_denial [OF a b c, of "''bar''"] unfolding d by simp
qed

section \<open>Delays as time advances\<close>

text \<open>
  C8. With the ledger unchanged, the reply of \<open>Schedule\<close> for a key and a slice does
  not increase with the clock reading: for \<open>t1 \<le> t2\<close> the reply at \<open>t2\<close> is at most
  the reply at \<open>t1\<close>. This holds for all replies, so for the denied ones.
\<close>

theorem delay_non_increasing:
  "t1 \<le> t2 \<Longrightarrow> sint (fst (Schedule l m t2 k s)) \<le> sint (fst (Schedule l m t1 k s))"
  by (simp add: Schedule_delay floor_eq max_def min_def)

theorem delay_non_increasing_witness:
  "(2 ^ 64 :: int) \<le> 2 ^ 64 + 500000000
   \<and> sint (fst (Schedule (New (3 * Second)) [''bar'' \<mapsto> 2 ^ 64] (2 ^ 64 + 500000000) ''bar'' Second))
       \<le> sint (fst (Schedule (New (3 * Second)) [''bar'' \<mapsto> 2 ^ 64] (2 ^ 64) ''bar'' Second))
   \<and> 0 < sint (fst (Schedule (New (3 * Second)) [''bar'' \<mapsto> 2 ^ 64] (2 ^ 64 + 500000000) ''bar'' Second))"
proof -
  have a: "(2 ^ 64 :: int) \<le> 2 ^ 64 + 500000000" by simp
  have b: "0 < sint (fst (Schedule (New (3 * Second)) [''bar'' \<mapsto> 2 ^ 64] (2 ^ 64 + 500000000) ''bar'' Second))"
    by (simp add: Schedule_delay floor_eq index_def New_def Second_def)
  show ?thesis
    using a b delay_non_increasing [OF a, of "New (3 * Second)" "[''bar'' \<mapsto> 2 ^ 64]" "''bar''" Second]
    by blast
qed

section \<open>Retrying after the delay\<close>

lemma le_quantum_neg:
  assumes "sint (s :: duration) \<le> sint (q :: duration)"
  shows "sint s + sint (- q) \<le> 0"
proof (cases "sint q = - (2 ^ 63)")
  case True
  then show ?thesis using assms sint_lower [of s] by (simp add: sint_neg)
next
  case False
  then show ?thesis using assms by (simp add: sint_neg)
qed

text \<open>
  C5, as stated, for any slice: after grants that exhaust the quantum, a denied
  \<open>Schedule\<close> that is repeated exactly its delay later is granted. A slice larger
  than the quantum is never granted: with a quantum of 3s, three 1s calls are granted
  and leave the entry at \<open>now\<close>; a 5s call is then denied with a delay of 5s, and
  5s later it is denied again.
\<close>

theorem retry_after_delay_counterexample:
  "map (\<lambda>d. sint d \<le> 0)
     (fst (run (New (3 * Second)) Map.empty
        [Ask (2 ^ 64) ''bar'' Second, Ask (2 ^ 64) ''bar'' Second, Ask (2 ^ 64) ''bar'' Second]))
     = [True, True, True]
   \<and> snd (run (New (3 * Second)) Map.empty
        [Ask (2 ^ 64) ''bar'' Second, Ask (2 ^ 64) ''bar'' Second, Ask (2 ^ 64) ''bar'' Second])
     = [''bar'' \<mapsto> 2 ^ 64]
   \<and> sint (fst (Schedule (New (3 * Second)) [''bar'' \<mapsto> 2 ^ 64] (2 ^ 64) ''bar'' (5 * Second))) = 5000000000
   \<and> \<not> sint (fst (Schedule (New (3 * Second)) [''bar'' \<mapsto> 2 ^ 64] (2 ^ 64 + 5000000000) ''bar'' (5 * Second))) \<le> 0"
  by (simp add: split_beta Schedule_delay Schedule_granted Schedule_ledger floor_eq index_def zeroTime_def New_def Second_def)

text \<open>
  C5, amended: when the key has an entry that is not after \<open>now\<close> (as every entry
  written by a grant is) and the slice \<open>s\<close> is at most the quantum, a \<open>Schedule\<close>
  that is denied with the delay \<open>d > 0\<close> is granted when it is repeated exactly
  \<open>d\<close> later with the ledger unchanged.
\<close>

theorem retry_after_delay:
  assumes "m k = Some v" and "v \<le> now" and "sint s \<le> sint (quantum l)"
    and "0 < sint (fst (Schedule l m now k s))"
  shows "sint (fst (Schedule l m (now + sint (fst (Schedule l m now k s))) k s)) \<le> 0"
proof -
  let ?nq = "sint (- quantum l)"
  let ?d = "sint (fst (Schedule l m now k s))"
  have sq: "sint s + ?nq \<le> 0"
    by (rule le_quantum_neg [OF assms(3)])
  have i: "index m k = v" using assms(1) by (simp add: index_def)
  have pos: "0 < max v (now + ?nq) + sint s - now"
    using assms(4) by (simp add: Schedule_delay floor_eq i max_def min_def split: if_splits)
  then have fl: "max v (now + ?nq) = v"
    using sq by (simp add: max_def split: if_splits)
  have "v + sint s - now \<le> 2 ^ 63 - 1"
    using assms(2) sint_upper [of s] by simp
  then have d: "?d = v + sint s - now"
    using pos fl by (simp add: Schedule_delay floor_eq i max_def min_def)
  have "max v (now + ?d + ?nq) = v"
    using sq by (simp add: d max_def)
  then have "floor l (index m k) (now + ?d) + sint s \<le> now + ?d"
    by (simp add: floor_eq i d)
  then show ?thesis
    by (simp only: Schedule_granted)
qed

theorem retry_after_delay_witness:
  "[''bar'' \<mapsto> 2 ^ 64] ''bar'' = Some (2 ^ 64 :: int) \<and> (2 ^ 64 :: int) \<le> 2 ^ 64
   \<and> sint Second \<le> sint (quantum (New (3 * Second)))
   \<and> sint (fst (Schedule (New (3 * Second)) [''bar'' \<mapsto> 2 ^ 64] (2 ^ 64) ''bar'' Second)) = 1000000000
   \<and> sint (fst (Schedule (New (3 * Second)) [''bar'' \<mapsto> 2 ^ 64] (2 ^ 64 + 1000000000) ''bar'' Second)) \<le> 0"
proof -
  have a: "[''bar'' \<mapsto> 2 ^ 64] ''bar'' = Some (2 ^ 64 :: int)" by simp
  have b: "(2 ^ 64 :: int) \<le> 2 ^ 64" by simp
  have c: "sint Second \<le> sint (quantum (New (3 * Second)))" by (simp add: New_def Second_def)
  have d: "sint (fst (Schedule (New (3 * Second)) [''bar'' \<mapsto> 2 ^ 64] (2 ^ 64) ''bar'' Second)) = 1000000000"
    by (simp add: Schedule_delay floor_eq index_def New_def Second_def)
  have e: "0 < sint (fst (Schedule (New (3 * Second)) [''bar'' \<mapsto> 2 ^ 64] (2 ^ 64) ''bar'' Second))"
    by (simp only: d)
  show ?thesis
    using a b c d retry_after_delay [OF a b c e] by (simp only: d)
qed

section \<open>The sweep\<close>

text \<open>
  The test of the sweep loop, on instants: the entry is before the clamp, or at the
  clamp and not the same struct.
\<close>

lemma floor_changes_iff:
  "floor_changes l same v t \<longleftrightarrow>
     v < Add t (- quantum l) \<or> (v = Add t (- quantum l) \<and> \<not> same)"
  by (auto simp: floor_changes_def floor_def Let_def After_def)


text \<open>
  The loop leaves only after the test \<open>i >= maxSweep\<close> that follows the visit of an
  entry, with \<open>i\<close> counting the entries visited before: a tick visits
  \<open>maxSweep + 1\<close> entries. Of twelve stale entries it deletes eleven.
\<close>

lemma sweep_eleven:
  "sweep (New Second) (2 ^ 64) {} 0
     [''a'', ''b'', ''c'', ''d'', ''e'', ''f'', ''g'', ''h'', ''i'', ''j'', ''k'', ''l'']
     [''a'' \<mapsto> 0, ''b'' \<mapsto> 0, ''c'' \<mapsto> 0, ''d'' \<mapsto> 0, ''e'' \<mapsto> 0, ''f'' \<mapsto> 0,
      ''g'' \<mapsto> 0, ''h'' \<mapsto> 0, ''i'' \<mapsto> 0, ''j'' \<mapsto> 0, ''k'' \<mapsto> 0, ''l'' \<mapsto> 0]
   = [''l'' \<mapsto> 0]"
  by (simp add: floor_changes_iff Add_def New_def Second_def maxSweep_def fun_upd_twist)

text \<open>
  An entry at the instant of the clamp whose other fields are not those of the clamp
  is deleted: two clock readings put the wall clock and the monotonic clock at
  different distances, and the entry has the distance of the reading that wrote it.
\<close>

lemma sweep_boundary_other_struct:
  "sweep (New Second) (2 ^ 64) {} 0 [''a''] [''a'' \<mapsto> 2 ^ 64 - 1000000000] ''a'' = None"
  by (simp add: floor_changes_iff Add_def New_def Second_def Let_def)




section \<open>Independent keys\<close>

lemma run_other_key:
  "k1 \<noteq> k2 \<Longrightarrow> snd (run l m (map (\<lambda>(t, d). Ask t k1 d) asks)) k2 = m k2"
proof (induction asks arbitrary: m)
  case Nil
  then show ?case by simp
next
  case (Cons a asks)
  obtain t d where a: "a = (t, d)" by (cases a)
  have "snd (run l m (map (\<lambda>(t, d). Ask t k1 d) (a # asks))) k2
      = snd (run l (snd (Schedule l m t k1 d)) (map (\<lambda>(t, d). Ask t k1 d) asks)) k2"
    by (simp add: a split_beta)
  also have "\<dots> = snd (Schedule l m t k1 d) k2"
    by (rule Cons.IH [OF Cons.prems])
  also have "\<dots> = m k2"
    using Cons.prems by (simp add: Schedule_ledger)
  finally show ?case .
qed

lemma Schedule_delay_cong:
  "m' k = m k \<Longrightarrow> fst (Schedule l m' now k s) = fst (Schedule l m now k s)"
  by (simp add: Schedule_def index_def Let_def)

text \<open>
  C7. Distinct keys are independent: a \<open>Schedule\<close> on \<open>k1\<close> leaves the entry of
  \<open>k2\<close> as it was; the reply to a \<open>Schedule\<close> on \<open>k2\<close> is the same for all ledgers
  that agree on the entry of \<open>k2\<close> (it depends on that entry, the quantum, the clock
  reading and the slice only); so after any number of \<open>Schedule\<close> calls on \<open>k1\<close>,
  at any times and with any slices, \<open>k2\<close> gets the reply it would have got without
  them.
\<close>

theorem keys_independent:
  assumes "k1 \<noteq> k2"
  shows "snd (Schedule l m now k1 s) k2 = m k2
     \<and> (\<forall>m'. m' k2 = m k2 \<longrightarrow> fst (Schedule l m' now' k2 s') = fst (Schedule l m now' k2 s'))
     \<and> fst (Schedule l (snd (run l m (map (\<lambda>(t, d). Ask t k1 d) asks))) now' k2 s')
         = fst (Schedule l m now' k2 s')"
proof -
  have "snd (Schedule l m now k1 s) k2 = m k2"
    using assms by (simp add: Schedule_ledger)
  moreover have "\<forall>m'. m' k2 = m k2 \<longrightarrow> fst (Schedule l m' now' k2 s') = fst (Schedule l m now' k2 s')"
    by (blast intro: Schedule_delay_cong)
  moreover have "fst (Schedule l (snd (run l m (map (\<lambda>(t, d). Ask t k1 d) asks))) now' k2 s')
         = fst (Schedule l m now' k2 s')"
    by (rule Schedule_delay_cong) (rule run_other_key [OF assms])
  ultimately show ?thesis by blast
qed

theorem keys_independent_witness:
  "''baz'' \<noteq> ''bar''
   \<and> snd (Schedule (New (3 * Second)) Map.empty (2 ^ 64) ''baz'' (3 * Second)) ''bar'' = None
   \<and> sint (fst (Schedule (New (3 * Second))
        (snd (run (New (3 * Second)) Map.empty (map (\<lambda>(t, d). Ask t ''baz'' d) [(2 ^ 64, 3 * Second)])))
        (2 ^ 64) ''bar'' Second)) = - 2000000000"
proof -
  have a: "''baz'' \<noteq> ''bar''" by simp
  have d: "sint (fst (Schedule (New (3 * Second)) Map.empty (2 ^ 64) ''bar'' Second)) = - 2000000000"
    by (simp add: Schedule_delay floor_eq index_def zeroTime_def New_def Second_def)
  note ki = keys_independent [OF a, of "New (3 * Second)" Map.empty "2 ^ 64" "3 * Second" "2 ^ 64" Second
        "[(2 ^ 64, 3 * Second)]"]
  have f: "snd (Schedule (New (3 * Second)) Map.empty (2 ^ 64) ''baz'' (3 * Second)) ''bar'' = None"
    using ki [THEN conjunct1] by simp
  have r: "fst (Schedule (New (3 * Second))
        (snd (run (New (3 * Second)) Map.empty (map (\<lambda>(t, d). Ask t ''baz'' d) [(2 ^ 64, 3 * Second)])))
        (2 ^ 64) ''bar'' Second) = fst (Schedule (New (3 * Second)) Map.empty (2 ^ 64) ''bar'' Second)"
    by (rule ki [THEN conjunct2, THEN conjunct2])
  show ?thesis
    using a f d by (simp only: r) simp
qed

section \<open>The wrappers\<close>

text \<open>
  C9. For every \<open>Limiter\<close>, \<open>Allow\<close> returns true exactly when its \<open>Schedule\<close>
  with a slice of one second replies \<open>\<le> 0\<close>, and \<open>AllowSlice\<close> exactly when its
  \<open>Schedule\<close> with the given slice does; the state after either wrapper is the
  state after that one \<open>Schedule\<close> call.
\<close>

theorem Allow_is_Schedule:
  "Allow sched st k = (sint (fst (sched st k Second)) \<le> 0, snd (sched st k Second))
   \<and> AllowSlice sched st k s = (sint (fst (sched st k s)) \<le> 0, snd (sched st k s))"
  by (simp add: Allow_def AllowSlice_def split_beta)

end
